theory Spec2Isabelle
  imports Main
begin

section \<open>Data model\<close>

text \<open>
  The development embeds the component protocol of the add-on builder twice, as the
  repository implements it twice:
  \<^item> the build-time sandbox, \<^verbatim>\<open>executeAndGetFileDefs\<close> in \<^verbatim>\<open>src/build.ts\<close>
    (the variant with \<^verbatim>\<open>createAddon\<close> and \<^verbatim>\<open>defineComponent\<close>);
  \<^item> the run-time bootstrap, the text \<^verbatim>\<open>runtimeScript\<close> that \<^verbatim>\<open>build\<close> emits, which is
    the minified form of the guarded variant in \<^verbatim>\<open>runtime-script/optimized.ts\<close>
    (the one that keeps \<^verbatim>\<open>createAddonCalled\<close> and \<^verbatim>\<open>functionsAvailable\<close>). The same file
    holds an earlier form of the script, which \<^verbatim>\<open>build\<close> does not emit: it has neither of
    the two flags nor the counter. Of that form only \<^verbatim>\<open>emptyDefine\<close> is embedded, for
    comparison.

  Closure variables become explicit state: the variables shared by a whole evaluation
  (\<^verbatim>\<open>mainComponent\<close>, \<^verbatim>\<open>allFilesCount\<close>, \<^verbatim>\<open>fileOnceKeys\<close>, \<^verbatim>\<open>createAddonCalled\<close>) form a session
  record, the variables of one factory invocation (\<^verbatim>\<open>fileDefinitions\<close>, \<^verbatim>\<open>scriptCallbacks\<close>,
  \<^verbatim>\<open>functionsAvailable\<close>) form the state of its handle. A \<^verbatim>\<open>throw\<close> is the left
  injection of a sum. The body of a component callback is the sequence of calls it
  makes on its handle; calling a script callback is recorded in a log, and what the
  callback does to the session is a parameter.
\<close>

record fileDefinition =
  path :: string
  content :: string

record 'cb component =
  c_fileDefinitions :: "fileDefinition list"
  c_scriptCallbacks :: "'cb list"

text \<open>
  \<^verbatim>\<open>DefineFileOptions\<close>: every field is optional. The field \<open>once\<close> holds \<^verbatim>\<open>o.once?.key\<close>.
  An omitted options argument is the record with every field \<open>None\<close>.
\<close>

record defineFileOptions =
  name :: "string option"
  rootDir :: "string option"
  ext :: "string option"
  once :: "string option"

text \<open>\<^verbatim>\<open>DefineFileRawOptions\<close>: the root directory and the extension are required.\<close>

record defineFileRawOptions =
  raw_name :: "string option"
  raw_rootDir :: string
  raw_ext :: string
  raw_once :: "string option"

text \<open>What a registration function returns: a file name, \<^verbatim>\<open>false\<close>, or \<^verbatim>\<open>undefined\<close>.\<close>

datatype define_result = RName string | RFalse | RVoid

text \<open>The errors thrown by the two implementations, with the text of each.\<close>

datatype error =
    AddonAlreadyCalled
  | DefineAfterAddon
  | AddonMustBeCalled
  | DefineUnavailable
  | ImplementUnavailable
  | CallbackThrew

definition sq :: "string \<Rightarrow> string" where
  "sq s = [CHR 0x27] @ s @ [CHR 0x27]"

fun message :: "error \<Rightarrow> string" where
  "message AddonAlreadyCalled = sq ''createAddon'' @ '' has already been called''"
| "message DefineAfterAddon =
     ''Cannot define a component after '' @ sq ''createAddon'' @ '' has been called''"
| "message AddonMustBeCalled = sq ''createAddon'' @ '' must be called''"
| "message DefineUnavailable =
     ''Cannot use '' @ sq ''define'' @ '' as it is no longer available''"
| "message ImplementUnavailable =
     ''Cannot use '' @ sq ''implement'' @ '' as it is no longer available''"
| "message CallbackThrew = ''''"

text \<open>
  The library functions the code calls and the repository does not define:
  \<^verbatim>\<open>path.join\<close> and \<^verbatim>\<open>JSON.stringify\<close>. They are parameters of the model.
\<close>

record 'j node =
  path_join :: "string \<Rightarrow> string \<Rightarrow> string"
  JSON_stringify :: "'j \<Rightarrow> string"

subsection \<open>Numbers as text\<close>

text \<open>
  \<^verbatim>\<open>allFilesCount.toString()\<close> and the \<^verbatim>\<open>${i}\<close> of a template literal print a
  non-negative integer in decimal. The counter is a natural number: a JavaScript number
  counts exactly up to \<open>2^53\<close>, which no evaluation reaches.
\<close>

definition digit :: "nat \<Rightarrow> char" where
  "digit d = char_of (48 + d)"

fun toString :: "nat \<Rightarrow> string" where
  "toString n = (if n < 10 then [digit n] else toString (n div 10) @ [digit (n mod 10)])"

declare toString.simps [simp del]

text \<open>\<^verbatim>\<open>Number(s)\<close> on a string of decimal digits: the way a name is read "as a number".\<close>

definition Number :: "string \<Rightarrow> nat" where
  "Number s = foldl (\<lambda>a c. 10 * a + (of_char c - 48)) 0 s"

section \<open>The build-time sandbox\<close>

record 'cb session =
  mainComponent :: "'cb component option"
  allFilesCount :: nat
  fileOnceKeys :: "string set"

definition init :: "'cb session" where
  "init = \<lparr>mainComponent = None, allFilesCount = 0, fileOnceKeys = {}\<rparr>"

text \<open>\<^verbatim>\<open>if (onceKey)\<close>: an absent key and the empty string are both falsy.\<close>

definition truthy :: "string option \<Rightarrow> bool" where
  "truthy k = (case k of None \<Rightarrow> False | Some s \<Rightarrow> s \<noteq> [])"

text \<open>
  \<^verbatim>\<open>defineFile(content, o)\<close>. The state is the closure variable \<^verbatim>\<open>fileDefinitions\<close> of
  the factory invocation together with the session.
\<close>

definition defineFile ::
  "'j node \<Rightarrow> string \<Rightarrow> defineFileRawOptions \<Rightarrow> fileDefinition list \<times> 'cb session
     \<Rightarrow> define_result \<times> fileDefinition list \<times> 'cb session" where
  "defineFile N text opts st =
     (case st of (fileDefinitions, s) \<Rightarrow>
        let onceKey = raw_once opts in
        if truthy onceKey \<and> the onceKey \<in> fileOnceKeys s then (RFalse, fileDefinitions, s)
        else
          let s1 = (if truthy onceKey
                    then s\<lparr>fileOnceKeys := insert (the onceKey) (fileOnceKeys s)\<rparr> else s);
              fileName = (case raw_name opts of Some n \<Rightarrow> n
                          | None \<Rightarrow> toString (allFilesCount s1));
              pushed = fileDefinitions @
                [\<lparr>path = path_join N (raw_rootDir opts) (fileName @ ''.'' @ raw_ext opts),
                  content = text\<rparr>]
          in (RName fileName, pushed, s1\<lparr>allFilesCount := allFilesCount s1 + 1\<rparr>))"

text \<open>
  \<^verbatim>\<open>defineJsonFile(defaultRootDir, content, o = {})\<close>. The options it hands to
  \<^verbatim>\<open>defineFile\<close> have the fields \<^verbatim>\<open>name\<close>, \<^verbatim>\<open>rootDir\<close> and \<^verbatim>\<open>ext\<close> only: \<^verbatim>\<open>o.once\<close> is not
  passed on.
\<close>

definition defineJsonFile ::
  "'j node \<Rightarrow> string \<Rightarrow> 'j \<Rightarrow> defineFileOptions \<Rightarrow> fileDefinition list \<times> 'cb session
     \<Rightarrow> define_result \<times> fileDefinition list \<times> 'cb session" where
  "defineJsonFile N defaultRootDir j opts st =
     defineFile N (JSON_stringify N j)
       \<lparr>raw_name = name opts,
        raw_rootDir = (case rootDir opts of Some r \<Rightarrow> r | None \<Rightarrow> defaultRootDir),
        raw_ext = (case ext opts of Some e \<Rightarrow> e | None \<Rightarrow> ''json''),
        raw_once = None\<rparr> st"

text \<open>The kinds of the \<^verbatim>\<open>define\<close> object that go through \<^verbatim>\<open>defineJsonFile\<close>.\<close>

datatype kind =
    ServerAnimationController | ServerAnimation | Biome | Block | Dialogue | Entity
  | FeatureRules | Feature | Item | LootTable | Recipe | SpawnRules | TradeTable
  | ClientAnimationController | ClientAnimation | Attachable | ClientEntity | Particle
  | RenderController

fun defaultRootDir :: "kind \<Rightarrow> string" where
  "defaultRootDir ServerAnimationController = ''BP/animation_controllers''"
| "defaultRootDir ServerAnimation = ''BP/animations''"
| "defaultRootDir Biome = ''BP/biomes''"
| "defaultRootDir Block = ''BP/blocks''"
| "defaultRootDir Dialogue = ''BP/dialogue''"
| "defaultRootDir Entity = ''BP/entities''"
| "defaultRootDir FeatureRules = ''BP/feature_rules''"
| "defaultRootDir Feature = ''BP/features''"
| "defaultRootDir Item = ''BP/items''"
| "defaultRootDir LootTable = ''BP/loot_tables''"
| "defaultRootDir Recipe = ''BP/recipes''"
| "defaultRootDir SpawnRules = ''BP/spawn_rules''"
| "defaultRootDir TradeTable = ''BP/trading''"
| "defaultRootDir ClientAnimationController = ''RP/animation_controllers''"
| "defaultRootDir ClientAnimation = ''RP/animations''"
| "defaultRootDir Attachable = ''RP/attachables''"
| "defaultRootDir ClientEntity = ''RP/entity''"
| "defaultRootDir Particle = ''RP/particles''"
| "defaultRootDir RenderController = ''RP/render_controllers''"

text \<open>
  One call on the handle \<^verbatim>\<open>{ define, implement }\<close>: \<^verbatim>\<open>define.<kind>(content, o)\<close>,
  \<^verbatim>\<open>define.rawText(content, o)\<close>, \<^verbatim>\<open>define.script(callback, { once })\<close> or
  \<^verbatim>\<open>implement(component)\<close>.
\<close>

datatype ('j, 'cb) call =
    Define kind 'j defineFileOptions
  | RawText string defineFileRawOptions
  | Script 'cb "string option"
  | Implement "'cb component"

text \<open>
  The build-time handle. \<^verbatim>\<open>script: () => {}\<close> ignores its arguments;
  \<^verbatim>\<open>implement\<close> puts the other component's files in front.
\<close>

fun bt_call ::
  "'j node \<Rightarrow> ('j, 'cb) call \<Rightarrow> fileDefinition list \<times> 'cb session
     \<Rightarrow> define_result \<times> fileDefinition list \<times> 'cb session" where
  "bt_call N (Define k j opts) st = defineJsonFile N (defaultRootDir k) j opts st"
| "bt_call N (RawText t opts) st = defineFile N t opts st"
| "bt_call N (Script cb k) (fileDefinitions, s) = (RVoid, fileDefinitions, s)"
| "bt_call N (Implement c) (fileDefinitions, s) =
     (RVoid, c_fileDefinitions c @ fileDefinitions, s)"

text \<open>The calls of a callback body, in order, with what each returned.\<close>

fun bt_calls ::
  "'j node \<Rightarrow> ('j, 'cb) call list \<Rightarrow> fileDefinition list \<times> 'cb session
     \<Rightarrow> define_result list \<times> fileDefinition list \<times> 'cb session" where
  "bt_calls N [] st = ([], st)"
| "bt_calls N (c # cs) st =
     (case bt_call N c st of (r, st1) \<Rightarrow>
        (case bt_calls N cs st1 of (rs, st2) \<Rightarrow> (r # rs, st2)))"

text \<open>
  One invocation of the function that \<^verbatim>\<open>defineComponent\<close> returns. The result is the
  component, what the calls returned, the closure variable \<^verbatim>\<open>fileDefinitions\<close> as the
  invocation leaves it (the array the component holds), and the session.
\<close>

definition factory ::
  "'j node \<Rightarrow> ('j, 'cb) call list \<Rightarrow> 'cb session
     \<Rightarrow> 'cb component \<times> define_result list \<times> fileDefinition list \<times> 'cb session" where
  "factory N body s =
     (case bt_calls N body ([], s) of (rs, fileDefinitions, s1) \<Rightarrow>
        (\<lparr>c_fileDefinitions = fileDefinitions, c_scriptCallbacks = []\<rparr>,
         rs, fileDefinitions, s1))"

definition createAddon :: "'cb component \<Rightarrow> 'cb session \<Rightarrow> error + 'cb session" where
  "createAddon c s =
     (if mainComponent s \<noteq> None then Inl AddonAlreadyCalled
      else Inr (s\<lparr>mainComponent := Some c\<rparr>))"

text \<open>
  \<^verbatim>\<open>defineComponent(callback)\<close> checks \<^verbatim>\<open>mainComponent\<close> and returns the factory; the
  factory itself, \<open>factory\<close> above, checks nothing.
\<close>

definition defineComponent :: "'cb session \<Rightarrow> error + unit" where
  "defineComponent s = (if mainComponent s \<noteq> None then Inl DefineAfterAddon else Inr ())"

text \<open>
  The evaluated code, as far as the sandbox sees it: a sequence of calls of the two
  host functions and of factories; an error ends the evaluation. The log pairs every
  handle call with what it returned.
\<close>

datatype ('j, 'cb) op =
    DefineComponent
  | CallFactory "('j, 'cb) call list"
  | CreateAddon "'cb component"

type_synonym ('j, 'cb) log = "(('j, 'cb) call \<times> define_result) list"

fun bt_run ::
  "'j node \<Rightarrow> ('j, 'cb) op list \<Rightarrow> 'cb session \<times> ('j, 'cb) log
     \<Rightarrow> error + 'cb session \<times> ('j, 'cb) log" where
  "bt_run N [] st = Inr st"
| "bt_run N (DefineComponent # ops) (s, lg) =
     (case defineComponent s of Inl e \<Rightarrow> Inl e | Inr u \<Rightarrow> bt_run N ops (s, lg))"
| "bt_run N (CallFactory body # ops) (s, lg) =
     (case factory N body s of (c, rs, fds, s1) \<Rightarrow> bt_run N ops (s1, lg @ zip body rs))"
| "bt_run N (CreateAddon c # ops) (s, lg) =
     (case createAddon c s of Inl e \<Rightarrow> Inl e | Inr s1 \<Rightarrow> bt_run N ops (s1, lg))"

definition executeAndGetFileDefs ::
  "'j node \<Rightarrow> ('j, 'cb) op list \<Rightarrow> error + fileDefinition list" where
  "executeAndGetFileDefs N code =
     (case bt_run N code (init, []) of
        Inl e \<Rightarrow> Inl e
      | Inr (s, lg) \<Rightarrow>
          (case mainComponent s of
             None \<Rightarrow> Inl AddonMustBeCalled
           | Some c \<Rightarrow> Inr (c_fileDefinitions c)))"

section \<open>The run-time bootstrap\<close>

text \<open>
  The session of the emitted text. \<open>invoked\<close> is the log of the script callbacks called
  so far, each with the object it was given.
\<close>

record ('cb, 'm) rt_session =
  createAddonCalled :: bool
  rt_allFilesCount :: nat
  rt_fileOnceKeys :: "string set"
  invoked :: "('cb \<times> 'm) list"

definition rt_init :: "('cb, 'm) rt_session" where
  "rt_init = \<lparr>createAddonCalled = False, rt_allFilesCount = 0, rt_fileOnceKeys = {},
              invoked = []\<rparr>"

record 'cb rt_handle =
  scriptCallbacks :: "'cb list"
  functionsAvailable :: bool

text \<open>\<^verbatim>\<open>emptyDefine(_content, o = {})\<close> of the emitted text: every file kind is this function.\<close>

definition emptyDefine ::
  "defineFileOptions \<Rightarrow> 'cb rt_handle \<times> ('cb, 'm) rt_session
     \<Rightarrow> (error + define_result) \<times> 'cb rt_handle \<times> ('cb, 'm) rt_session" where
  "emptyDefine opts st =
     (case st of (h, s) \<Rightarrow>
        if \<not> functionsAvailable h then (Inl DefineUnavailable, h, s)
        else
          let onceKey = once opts in
          if truthy onceKey \<and> the onceKey \<in> rt_fileOnceKeys s then (Inr RFalse, h, s)
          else
            let s1 = (if truthy onceKey
                      then s\<lparr>rt_fileOnceKeys := insert (the onceKey) (rt_fileOnceKeys s)\<rparr>
                      else s);
                fileName = (case name opts of Some n \<Rightarrow> n
                            | None \<Rightarrow> toString (rt_allFilesCount s1))
            in (Inr (RName fileName), h, s1\<lparr>rt_allFilesCount := rt_allFilesCount s1 + 1\<rparr>))"

text \<open>
  The earlier form of \<^verbatim>\<open>emptyDefine\<close> in \<^verbatim>\<open>runtime-script/optimized.ts\<close>, which has
  neither the guard nor the counter: \<^verbatim>\<open>return false\<close>.
\<close>

definition emptyDefine_early ::
  "defineFileOptions \<Rightarrow> 'cb rt_handle \<times> ('cb, 'm) rt_session
     \<Rightarrow> (error + define_result) \<times> 'cb rt_handle \<times> ('cb, 'm) rt_session" where
  "emptyDefine_early opts st = (case st of (h, s) \<Rightarrow> (Inr RFalse, h, s))"

definition rt_script ::
  "'cb \<Rightarrow> string option \<Rightarrow> 'cb rt_handle \<times> ('cb, 'm) rt_session
     \<Rightarrow> (error + define_result) \<times> 'cb rt_handle \<times> ('cb, 'm) rt_session" where
  "rt_script cb onceKey st =
     (case st of (h, s) \<Rightarrow>
        if \<not> functionsAvailable h then (Inl DefineUnavailable, h, s)
        else if truthy onceKey \<and> the onceKey \<in> rt_fileOnceKeys s then (Inr RVoid, h, s)
        else
          let s1 = (if truthy onceKey
                    then s\<lparr>rt_fileOnceKeys := insert (the onceKey) (rt_fileOnceKeys s)\<rparr>
                    else s)
          in (Inr RVoid, h\<lparr>scriptCallbacks := scriptCallbacks h @ [cb]\<rparr>, s1))"

definition rt_implement ::
  "'cb component \<Rightarrow> 'cb rt_handle \<times> ('cb, 'm) rt_session
     \<Rightarrow> (error + define_result) \<times> 'cb rt_handle \<times> ('cb, 'm) rt_session" where
  "rt_implement c st =
     (case st of (h, s) \<Rightarrow>
        if \<not> functionsAvailable h then (Inl ImplementUnavailable, h, s)
        else (Inr RVoid, h\<lparr>scriptCallbacks := c_scriptCallbacks c @ scriptCallbacks h\<rparr>, s))"

text \<open>\<^verbatim>\<open>rawText\<close> is \<^verbatim>\<open>emptyDefine\<close> too: it reads \<^verbatim>\<open>o.once\<close> and \<^verbatim>\<open>o.name\<close> only.\<close>

definition raw_as_options :: "defineFileRawOptions \<Rightarrow> defineFileOptions" where
  "raw_as_options opts = \<lparr>name = raw_name opts, rootDir = Some (raw_rootDir opts),
                        ext = Some (raw_ext opts), once = raw_once opts\<rparr>"

fun rt_call ::
  "('j, 'cb) call \<Rightarrow> 'cb rt_handle \<times> ('cb, 'm) rt_session
     \<Rightarrow> (error + define_result) \<times> 'cb rt_handle \<times> ('cb, 'm) rt_session" where
  "rt_call (Define k j opts) st = emptyDefine opts st"
| "rt_call (RawText t opts) st = emptyDefine (raw_as_options opts) st"
| "rt_call (Script cb k) st = rt_script cb k st"
| "rt_call (Implement c) st = rt_implement c st"

text \<open>The calls of a callback body; the first error ends the body.\<close>

fun rt_calls ::
  "('j, 'cb) call list \<Rightarrow> 'cb rt_handle \<times> ('cb, 'm) rt_session
     \<Rightarrow> (error + define_result list) \<times> 'cb rt_handle \<times> ('cb, 'm) rt_session" where
  "rt_calls [] st = (Inr [], st)"
| "rt_calls (c # cs) st =
     (case rt_call c st of
        (Inl e, st1) \<Rightarrow> (Inl e, st1)
      | (Inr r, st1) \<Rightarrow>
          (case rt_calls cs st1 of
             (Inl e, st2) \<Rightarrow> (Inl e, st2)
           | (Inr rs, st2) \<Rightarrow> (Inr (r # rs), st2)))"

text \<open>
  One invocation of the run-time factory: the handle starts with no callbacks and
  \<^verbatim>\<open>functionsAvailable = true\<close>; after the body, \<^verbatim>\<open>functionsAvailable = false\<close>. The
  handle state is returned next to the component: the handle object outlives the call.
\<close>

definition rt_factory ::
  "('j, 'cb) call list \<Rightarrow> ('cb, 'm) rt_session
     \<Rightarrow> (error + 'cb component \<times> define_result list) \<times> 'cb rt_handle \<times> ('cb, 'm) rt_session"
  where
  "rt_factory body s =
     (case rt_calls body (\<lparr>scriptCallbacks = [], functionsAvailable = True\<rparr>, s) of
        (Inl e, h, s1) \<Rightarrow> (Inl e, h, s1)
      | (Inr rs, h, s1) \<Rightarrow>
          (Inr (\<lparr>c_fileDefinitions = [], c_scriptCallbacks = scriptCallbacks h\<rparr>, rs),
           h\<lparr>functionsAvailable := False\<rparr>, s1))"

text \<open>
  What a script callback does when it is called, as far as the session sees it: it
  returns, it throws, or it calls \<^verbatim>\<open>globalThis.createAddon\<close> itself on some component
  (an error of that call is not caught) and then returns. The parameter \<open>does\<close> gives
  this for every callback.
\<close>

datatype 'cb behaviour = Returns | Throws | Reenters "'cb component"

text \<open>
  \<^verbatim>\<open>createAddon\<close> and its loop
  \<^verbatim>\<open>for (const scriptCallback of mainComponent._scriptCallbacks) scriptCallback(MODULES)\<close>.
  The guard is read first, the flag is set after the loop. A callback may call
  \<^verbatim>\<open>createAddon\<close> again, so the two functions call each other; the first argument
  bounds how deep calls of \<^verbatim>\<open>createAddon\<close> may nest, and \<open>None\<close> is a nesting deeper than
  that (a callback that passes on a component holding itself never returns).
\<close>

fun rt_createAddon ::
  "nat \<Rightarrow> 'm \<Rightarrow> ('cb \<Rightarrow> 'cb behaviour) \<Rightarrow> 'cb component \<Rightarrow> ('cb, 'm) rt_session
     \<Rightarrow> ((error + unit) \<times> ('cb, 'm) rt_session) option"
and invoke_all ::
  "nat \<Rightarrow> 'm \<Rightarrow> ('cb \<Rightarrow> 'cb behaviour) \<Rightarrow> 'cb list \<Rightarrow> ('cb, 'm) rt_session
     \<Rightarrow> ((error + unit) \<times> ('cb, 'm) rt_session) option" where
  "rt_createAddon 0 MODULES does c s = None"
| "rt_createAddon (Suc depth) MODULES does c s =
     (if createAddonCalled s then Some (Inl AddonAlreadyCalled, s)
      else
        (case invoke_all depth MODULES does (c_scriptCallbacks c) s of
           None \<Rightarrow> None
         | Some (Inl e, s1) \<Rightarrow> Some (Inl e, s1)
         | Some (Inr u, s1) \<Rightarrow> Some (Inr (), s1\<lparr>createAddonCalled := True\<rparr>)))"
| "invoke_all depth MODULES does [] s = Some (Inr (), s)"
| "invoke_all depth MODULES does (cb # cbs) s =
     (let s1 = s\<lparr>invoked := invoked s @ [(cb, MODULES)]\<rparr>
      in case does cb of
           Returns \<Rightarrow> invoke_all depth MODULES does cbs s1
         | Throws \<Rightarrow> Some (Inl CallbackThrew, s1)
         | Reenters c \<Rightarrow>
             (case rt_createAddon depth MODULES does c s1 of
                None \<Rightarrow> None
              | Some (Inl e, s2) \<Rightarrow> Some (Inl e, s2)
              | Some (Inr u, s2) \<Rightarrow> invoke_all depth MODULES does cbs s2))"

definition rt_defineComponent :: "('cb, 'm) rt_session \<Rightarrow> error + unit" where
  "rt_defineComponent s = (if createAddonCalled s then Inl DefineAfterAddon else Inr ())"

section \<open>The banner\<close>






section \<open>Notions used in the statements\<close>

text \<open>A call that registers a file, and the name its options give, if any.\<close>

fun is_file_call :: "('j, 'cb) call \<Rightarrow> bool" where
  "is_file_call (Define k j opts) = True"
| "is_file_call (RawText t opts) = True"
| "is_file_call (Script cb k) = False"
| "is_file_call (Implement c) = False"

fun call_name :: "('j, 'cb) call \<Rightarrow> string option" where
  "call_name (Define k j opts) = name opts"
| "call_name (RawText t opts) = raw_name opts"
| "call_name (Script cb k) = None"
| "call_name (Implement c) = None"

text \<open>
  A concrete instance of the library parameters for the evaluated examples: the
  content is already text, and the path is joined with a slash.
\<close>

definition plain_node :: "string node" where
  "plain_node = \<lparr>path_join = (\<lambda>a b. a @ ''/'' @ b), JSON_stringify = (\<lambda>j. j)\<rparr>"

definition no_options :: defineFileOptions where
  "no_options = \<lparr>name = None, rootDir = None, ext = None, once = None\<rparr>"

text \<open>
  The components a callback body implements, in call order, and the body without its
  \<^verbatim>\<open>implement\<close> calls: the registrations the component makes itself.
\<close>

fun implemented :: "('j, 'cb) call list \<Rightarrow> 'cb component list" where
  "implemented [] = []"
| "implemented (Implement c # cs) = c # implemented cs"
| "implemented (x # cs) = implemented cs"

fun own :: "('j, 'cb) call list \<Rightarrow> ('j, 'cb) call list" where
  "own [] = []"
| "own (Implement c # cs) = own cs"
| "own (x # cs) = x # own cs"

text \<open>The component a run-time factory invocation returns, if it returns.\<close>

definition rt_component ::
  "('j, 'cb) call list \<Rightarrow> ('cb, 'm) rt_session \<Rightarrow> 'cb component option" where
  "rt_component body s =
     (case rt_factory body s of
        (Inl e, h, s1) \<Rightarrow> None
      | (Inr (c, rs), h, s1) \<Rightarrow> Some c)"

text \<open>The error a call on an inert run-time handle raises.\<close>

fun unavailable :: "('j, 'cb) call \<Rightarrow> error" where
  "unavailable (Implement c) = ImplementUnavailable"
| "unavailable x = DefineUnavailable"






text \<open>
  The names the code generated itself, in the order of the log: the results of the
  file registrations whose options give no name.
\<close>

fun auto_names :: "('j, 'cb) log \<Rightarrow> string list" where
  "auto_names [] = []"
| "auto_names ((c, r) # lg) =
     (case r of
        RName n \<Rightarrow> if is_file_call c \<and> call_name c = None then n # auto_names lg
                   else auto_names lg
      | RFalse \<Rightarrow> auto_names lg
      | RVoid \<Rightarrow> auto_names lg)"

text \<open>
  The naming discipline, read off a log: \<open>registered k lg\<close> is \<open>k\<close> plus the number of
  file registrations of \<open>lg\<close> that succeeded, of whatever kind; \<open>counts_from k lg\<close> says
  that every file registration of \<open>lg\<close> that succeeded has the name its options give, or
  else the text of \<open>k\<close> plus the number of file registrations that succeeded before it.
\<close>

fun registered :: "nat \<Rightarrow> ('j, 'cb) log \<Rightarrow> nat" where
  "registered k [] = k"
| "registered k ((c, r) # lg) =
     registered (if is_file_call c \<and> r \<noteq> RFalse then k + 1 else k) lg"

fun counts_from :: "nat \<Rightarrow> ('j, 'cb) log \<Rightarrow> bool" where
  "counts_from k [] = True"
| "counts_from k ((c, r) # lg) =
     (if is_file_call c
      then (case r of
              RFalse \<Rightarrow> counts_from k lg
            | RName n \<Rightarrow>
                n = (case call_name c of Some m \<Rightarrow> m | None \<Rightarrow> toString k)
                \<and> counts_from (k + 1) lg
            | RVoid \<Rightarrow> False)
      else counts_from k lg)"

text \<open>The once-key the options of a call carry, if any.\<close>

fun call_once :: "('j, 'cb) call \<Rightarrow> string option" where
  "call_once (Define k j opts) = once opts"
| "call_once (RawText t opts) = raw_once opts"
| "call_once (Script cb k) = k"
| "call_once (Implement c) = None"

text \<open>
  Script callbacks for the evaluated example of a nested call: callback 1 calls
  \<^verbatim>\<open>createAddon\<close> on a component whose only callback is 2; every other callback returns.
\<close>

definition reenter_example :: "nat \<Rightarrow> nat behaviour" where
  "reenter_example cb =
     (if cb = 1 then Reenters \<lparr>c_fileDefinitions = [], c_scriptCallbacks = [2]\<rparr> else Returns)"

section \<open>Basic facts\<close>

lemma toString_0: "toString 0 = ''0''"
  by code_simp

lemma toString_Suc_0: "toString (Suc 0) = ''1''"
  by code_simp

lemma toString_2: "toString (Suc (Suc 0)) = ''2''"
  by code_simp

lemma bt_call_mainComponent:
  "bt_call N c (fds, s) = (r, fds', s') \<Longrightarrow> mainComponent s' = mainComponent s"
  by (cases c)
    (auto simp: defineFile_def defineJsonFile_def Let_def split: if_splits option.splits)

lemma bt_calls_mainComponent:
  "bt_calls N cs (fds, s) = (rs, fds', s') \<Longrightarrow> mainComponent s' = mainComponent s"
proof (induction cs arbitrary: fds s rs fds' s')
  case Nil
  then show ?case by simp
next
  case (Cons c cs)
  obtain r f1 s1 where c: "bt_call N c (fds, s) = (r, f1, s1)"
    by (metis prod_cases3)
  obtain rs2 f2 s2 where cs: "bt_calls N cs (f1, s1) = (rs2, f2, s2)"
    by (metis prod_cases3)
  from Cons.prems c cs have "s' = s2" by simp
  with Cons.IH [OF cs] bt_call_mainComponent [OF c] show ?case by simp
qed

lemma factory_mainComponent:
  "factory N body s = (c, rs, fds, s') \<Longrightarrow> mainComponent s' = mainComponent s"
  by (auto simp: factory_def split: prod.splits dest: bt_calls_mainComponent)

text \<open>Once the root component is set, nothing in an evaluation changes it.\<close>

lemma bt_run_mainComponent:
  "bt_run N ops (s, lg) = Inr (s', lg') \<Longrightarrow> mainComponent s \<noteq> None
     \<Longrightarrow> mainComponent s' = mainComponent s"
proof (induction N ops "(s, lg)" arbitrary: s lg rule: bt_run.induct)
  case (1 N)
  then show ?case by simp
next
  case (2 N ops s lg)
  then show ?case by (simp add: defineComponent_def)
next
  case (3 N body ops s lg)
  then show ?case by (auto split: prod.splits dest: factory_mainComponent)
next
  case (4 N c ops s lg)
  then show ?case by (simp add: createAddon_def)
qed

section \<open>The counter and the file sequence under one registration\<close>

text \<open>
  Claim C10. At build time, a file registration that succeeds adds exactly one entry to
  the file sequence of the component and increments the shared counter by exactly one,
  also when the options give a name (the result is then that name, and a later
  generated name skips the value); a registration that the once-key gate rejects
  (result \<^verbatim>\<open>false\<close>) leaves the counter, the key set and the file sequence as they were.
\<close>

theorem registration_counter_frame:
  assumes "is_file_call c" and "bt_call N c (fds, s) = (r, fds', s')"
  shows "(r = RFalse \<longrightarrow> fds' = fds \<and> s' = s) \<and>
         (r \<noteq> RFalse \<longrightarrow>
            allFilesCount s' = allFilesCount s + 1 \<and>
            (\<exists>fd. fds' = fds @ [fd]) \<and>
            (\<forall>n. call_name c = Some n \<longrightarrow> r = RName n))"
  using assms
  by (cases c)
    (auto simp: defineFile_def defineJsonFile_def Let_def split: if_splits option.splits)

theorem registration_counter_frame_witness:
  "is_file_call (Define Entity ''{}'' (no_options\<lparr>name := Some ''pig''\<rparr>) :: (string, nat) call) \<and>
   bt_call plain_node (Define Entity ''{}'' (no_options\<lparr>name := Some ''pig''\<rparr>))
       ([], init :: nat session)
     = (RName ''pig'', [\<lparr>path = ''BP/entities/pig.json'', content = ''{}''\<rparr>],
        init\<lparr>allFilesCount := 1\<rparr>) \<and>
   allFilesCount (init\<lparr>allFilesCount := 1\<rparr> :: nat session) = allFilesCount (init :: nat session) + 1"
proof -
  let ?c = "Define Entity ''{}'' (no_options\<lparr>name := Some ''pig''\<rparr>) :: (string, nat) call"
  have h1: "is_file_call ?c" by simp
  have h2: "bt_call plain_node ?c ([], init :: nat session)
              = (RName ''pig'', [\<lparr>path = ''BP/entities/pig.json'', content = ''{}''\<rparr>],
                 init\<lparr>allFilesCount := 1\<rparr>)"
    by (simp add: defineJsonFile_def defineFile_def no_options_def plain_node_def init_def
        truthy_def Let_def)
  from registration_counter_frame [OF h1 h2] h1 h2 show ?thesis by simp
qed

section \<open>Finalizing twice, defining after finalize\<close>

text \<open>
  Claim C6, as stated, fails: a factory obtained before \<^verbatim>\<open>createAddon\<close> and invoked
  after it runs to the end; the evaluation below completes and returns the files of
  the root component.
\<close>

theorem factory_after_createAddon_runs:
  "executeAndGetFileDefs plain_node
     [DefineComponent,
      CreateAddon \<lparr>c_fileDefinitions = [], c_scriptCallbacks = [] :: nat list\<rparr>,
      CallFactory [RawText ''x''
        \<lparr>raw_name = None, raw_rootDir = ''BP'', raw_ext = ''txt'', raw_once = None\<rparr>]]
   = Inr []"
  by (simp add: executeAndGetFileDefs_def init_def defineComponent_def createAddon_def
      factory_def defineFile_def truthy_def Let_def)

text \<open>
  Claim C6, amended. Within one build-time evaluation, once \<^verbatim>\<open>createAddon\<close> has
  succeeded, and whatever the evaluation does next, a further call of \<^verbatim>\<open>createAddon\<close>
  fails with the error "'createAddon' has already been called" and a call of
  \<^verbatim>\<open>defineComponent\<close> fails with "Cannot define a component after 'createAddon' has been
  called". The guard is in \<^verbatim>\<open>defineComponent\<close>, not in the factory it returns.
\<close>

theorem createAddon_twice_and_define_after:
  assumes "createAddon c s = Inr s1" and "bt_run N ops (s1, lg) = Inr (s2, lg2)"
  shows "createAddon c' s2 = Inl AddonAlreadyCalled \<and>
         defineComponent s2 = Inl DefineAfterAddon"
proof -
  from assms(1) have "mainComponent s1 \<noteq> None"
    by (auto simp: createAddon_def split: if_splits)
  with bt_run_mainComponent [OF assms(2)] have "mainComponent s2 \<noteq> None"
    by simp
  then show ?thesis
    by (simp add: createAddon_def defineComponent_def)
qed

theorem createAddon_twice_and_define_after_witness:
  "createAddon \<lparr>c_fileDefinitions = [], c_scriptCallbacks = [] :: nat list\<rparr> init
     = Inr (init\<lparr>mainComponent := Some \<lparr>c_fileDefinitions = [], c_scriptCallbacks = []\<rparr>\<rparr>) \<and>
   bt_run plain_node [CallFactory []]
     (init\<lparr>mainComponent := Some \<lparr>c_fileDefinitions = [], c_scriptCallbacks = [] :: nat list\<rparr>\<rparr>, [])
     = Inr (init\<lparr>mainComponent := Some \<lparr>c_fileDefinitions = [], c_scriptCallbacks = []\<rparr>\<rparr>, []) \<and>
   createAddon \<lparr>c_fileDefinitions = [], c_scriptCallbacks = [1]\<rparr>
     (init\<lparr>mainComponent := Some \<lparr>c_fileDefinitions = [], c_scriptCallbacks = [] :: nat list\<rparr>\<rparr>)
     = Inl AddonAlreadyCalled \<and>
   defineComponent
     (init\<lparr>mainComponent := Some \<lparr>c_fileDefinitions = [], c_scriptCallbacks = [] :: nat list\<rparr>\<rparr>)
     = Inl DefineAfterAddon"
proof -
  let ?c = "\<lparr>c_fileDefinitions = [], c_scriptCallbacks = [] :: nat list\<rparr>"
  have h1: "createAddon ?c init = Inr (init\<lparr>mainComponent := Some ?c\<rparr>)"
    by (simp add: createAddon_def init_def)
  have h2: "bt_run plain_node [CallFactory []] (init\<lparr>mainComponent := Some ?c\<rparr>, [])
              = Inr (init\<lparr>mainComponent := Some ?c\<rparr>, [])"
    by (simp add: factory_def)
  from createAddon_twice_and_define_after [OF h1 h2] h1 h2 show ?thesis by simp
qed

section \<open>The order of implemented components\<close>

lemma defineFile_shift:
  "defineFile N t opts (fds, s) = (r, fds', s') \<Longrightarrow>
   \<exists>added. fds' = fds @ added \<and>
     (\<forall>pre. defineFile N t opts (pre, s) = (r, pre @ added, s'))"
  by (auto simp: defineFile_def Let_def split: if_splits)

lemma bt_call_shift:
  "\<not> (\<exists>c. x = Implement c) \<Longrightarrow> bt_call N x (fds, s) = (r, fds', s') \<Longrightarrow>
   \<exists>added. fds' = fds @ added \<and> (\<forall>pre. bt_call N x (pre, s) = (r, pre @ added, s'))"
  by (cases x) (auto simp: defineJsonFile_def dest: defineFile_shift)

text \<open>
  The loop invariant of a build-time body: the files of the implemented components,
  the latest in front, then what was there, then what the body registered itself.
\<close>

lemma bt_calls_order:
  "bt_calls N cs (fds, s) = (rs, fds', s') \<Longrightarrow>
   \<exists>rs0 added. (\<forall>pre. bt_calls N (own cs) (pre, s) = (rs0, pre @ added, s')) \<and>
     fds' = concat (map c_fileDefinitions (rev (implemented cs))) @ fds @ added"
proof (induction cs arbitrary: fds s rs fds' s')
  case Nil
  then show ?case by simp
next
  case (Cons x cs)
  obtain r f1 s1 where x: "bt_call N x (fds, s) = (r, f1, s1)"
    by (metis prod_cases3)
  obtain rs2 f2 s2 where cs: "bt_calls N cs (f1, s1) = (rs2, f2, s2)"
    by (metis prod_cases3)
  from Cons.prems x cs have eq: "fds' = f2" "s' = s2" by simp_all
  from Cons.IH [OF cs] obtain rs0 added where
    ih: "\<And>pre. bt_calls N (own cs) (pre, s1) = (rs0, pre @ added, s2)"
        "f2 = concat (map c_fileDefinitions (rev (implemented cs))) @ f1 @ added"
    by blast
  show ?case
  proof (cases "\<exists>c. x = Implement c")
    case True
    then obtain c where c: "x = Implement c" by blast
    with x have "f1 = c_fileDefinitions c @ fds" "s1 = s" by simp_all
    with ih eq c show ?thesis by simp
  next
    case False
    from bt_call_shift [OF False x] obtain a1 where
      a1: "f1 = fds @ a1" "\<And>pre. bt_call N x (pre, s) = (r, pre @ a1, s1)"
      by blast
    from False have o: "own (x # cs) = x # own cs" by (cases x) auto
    have "\<And>pre. bt_calls N (own (x # cs)) (pre, s) = (r # rs0, pre @ (a1 @ added), s2)"
      using a1(2) ih(1) by (simp add: o)
    moreover from False have "implemented (x # cs) = implemented cs" by (cases x) auto
    ultimately show ?thesis
      using ih(2) eq a1(1) by (intro exI [of _ "r # rs0"] exI [of _ "a1 @ added"]) simp
  qed
qed

lemma rt_call_live:
  "functionsAvailable h \<Longrightarrow> rt_call x (h, s) = (r, h', s')
     \<Longrightarrow> functionsAvailable h' \<and> (\<exists>v. r = Inr v)"
  by (cases x)
    (auto simp: emptyDefine_def rt_script_def rt_implement_def Let_def split: if_splits)

lemma rt_call_shift:
  "\<not> (\<exists>c. x = Implement c) \<Longrightarrow> functionsAvailable h \<Longrightarrow> rt_call x (h, s) = (r, h', s') \<Longrightarrow>
   \<exists>added. scriptCallbacks h' = scriptCallbacks h @ added \<and> functionsAvailable h' \<and>
      (\<forall>pre. rt_call x (\<lparr>scriptCallbacks = pre, functionsAvailable = True\<rparr>, s)
         = (r, \<lparr>scriptCallbacks = pre @ added, functionsAvailable = True\<rparr>, s'))"
  by (cases x) (auto simp: emptyDefine_def rt_script_def Let_def split: if_splits)

text \<open>The same invariant for a run-time body on a live handle; such a body raises nothing.\<close>

lemma rt_calls_order:
  "functionsAvailable h \<Longrightarrow> rt_calls cs (h, s) = (r, h', s') \<Longrightarrow>
   \<exists>rs rs0 added. r = Inr rs \<and> functionsAvailable h' \<and>
     (\<forall>pre. rt_calls (own cs) (\<lparr>scriptCallbacks = pre, functionsAvailable = True\<rparr>, s)
          = (Inr rs0, \<lparr>scriptCallbacks = pre @ added, functionsAvailable = True\<rparr>, s')) \<and>
     scriptCallbacks h' =
       concat (map c_scriptCallbacks (rev (implemented cs))) @ scriptCallbacks h @ added"
proof (induction cs arbitrary: h s r h' s')
  case Nil
  then show ?case by auto
next
  case (Cons x cs)
  obtain r1 h1 s1 where x: "rt_call x (h, s) = (r1, h1, s1)"
    by (metis prod_cases3)
  from rt_call_live [OF Cons.prems(1) x] obtain v where
    v: "r1 = Inr v" and l1: "functionsAvailable h1"
    by blast
  obtain r2 h2 s2 where cs: "rt_calls cs (h1, s1) = (r2, h2, s2)"
    by (metis prod_cases3)
  from Cons.IH [OF l1 cs] obtain rs rs0 added where
    ih: "r2 = Inr rs" "functionsAvailable h2"
        "\<And>pre. rt_calls (own cs) (\<lparr>scriptCallbacks = pre, functionsAvailable = True\<rparr>, s1)
          = (Inr rs0, \<lparr>scriptCallbacks = pre @ added, functionsAvailable = True\<rparr>, s2)"
        "scriptCallbacks h2 =
           concat (map c_scriptCallbacks (rev (implemented cs))) @ scriptCallbacks h1 @ added"
    by blast
  from Cons.prems(2) x v cs ih(1) have eq: "r = Inr (v # rs)" "h' = h2" "s' = s2"
    by simp_all
  show ?case
  proof (cases "\<exists>c. x = Implement c")
    case True
    then obtain c where c: "x = Implement c" by blast
    with x Cons.prems(1)
    have "scriptCallbacks h1 = c_scriptCallbacks c @ scriptCallbacks h" "s1 = s"
      by (auto simp: rt_implement_def)
    with ih eq c show ?thesis by simp
  next
    case False
    from rt_call_shift [OF False Cons.prems(1) x] obtain a1 where
      a1: "scriptCallbacks h1 = scriptCallbacks h @ a1"
          "\<And>pre. rt_call x (\<lparr>scriptCallbacks = pre, functionsAvailable = True\<rparr>, s)
             = (r1, \<lparr>scriptCallbacks = pre @ a1, functionsAvailable = True\<rparr>, s1)"
      by blast
    from False have o: "own (x # cs) = x # own cs" by (cases x) auto
    have "\<And>pre. rt_calls (own (x # cs)) (\<lparr>scriptCallbacks = pre, functionsAvailable = True\<rparr>, s)
        = (Inr (v # rs0), \<lparr>scriptCallbacks = pre @ (a1 @ added), functionsAvailable = True\<rparr>, s2)"
      using a1(2) ih(3) v by (simp add: o)
    moreover from False have "implemented (x # cs) = implemented cs" by (cases x) auto
    ultimately show ?thesis
      using ih(2,4) eq a1(1)
      by (intro exI [of _ "v # rs"] exI [of _ "v # rs0"] exI [of _ "a1 @ added"]) simp
  qed
qed

text \<open>A run-time factory invocation always returns a component.\<close>

lemma rt_factory_returns: "\<exists>c rs h s'. rt_factory body s = (Inr (c, rs), h, s')"
proof -
  obtain r h s' where
    b: "rt_calls body (\<lparr>scriptCallbacks = [], functionsAvailable = True\<rparr>, s) = (r, h, s')"
    by (metis prod_cases3)
  from rt_calls_order [OF _ b] obtain rs where "r = Inr rs" by auto
  with b show ?thesis by (simp add: rt_factory_def)
qed

lemma factory_order:
  "c_fileDefinitions (fst (factory N body s)) =
     concat (map c_fileDefinitions (rev (implemented body)))
       @ c_fileDefinitions (fst (factory N (own body) s))"
proof -
  obtain rs fds s' where b: "bt_calls N body ([], s) = (rs, fds, s')"
    by (metis prod_cases3)
  from bt_calls_order [OF b] obtain rs0 added where
    "bt_calls N (own body) ([], s) = (rs0, [] @ added, s')"
    "fds = concat (map c_fileDefinitions (rev (implemented body))) @ [] @ added"
    by blast
  with b show ?thesis by (simp add: factory_def)
qed

lemma rt_factory_order:
  "\<exists>c c0. rt_component body s = Some c \<and> rt_component (own body) s = Some c0 \<and>
     c_fileDefinitions c = [] \<and>
     c_scriptCallbacks c =
       concat (map c_scriptCallbacks (rev (implemented body))) @ c_scriptCallbacks c0"
proof -
  obtain r h s' where
    b: "rt_calls body (\<lparr>scriptCallbacks = [], functionsAvailable = True\<rparr>, s) = (r, h, s')"
    by (metis prod_cases3)
  from rt_calls_order [OF _ b] obtain rs rs0 added where
    r: "r = Inr rs" and
    o: "rt_calls (own body) (\<lparr>scriptCallbacks = [], functionsAvailable = True\<rparr>, s)
          = (Inr rs0, \<lparr>scriptCallbacks = [] @ added, functionsAvailable = True\<rparr>, s')" and
    e: "scriptCallbacks h =
          concat (map c_scriptCallbacks (rev (implemented body))) @ [] @ added"
    by fastforce
  show ?thesis using b r o e by (simp add: rt_component_def rt_factory_def)
qed

text \<open>
  Claim C1, as stated, fails: a body that implements \<open>B1\<close> and then \<open>B2\<close> yields the
  file of \<open>B2\<close> first, not the file of \<open>B1\<close>.
\<close>

theorem implement_later_goes_first:
  "c_fileDefinitions (fst (factory plain_node
      [Implement \<lparr>c_fileDefinitions = [\<lparr>path = ''BP/a.json'', content = ''1''\<rparr>],
                  c_scriptCallbacks = [] :: nat list\<rparr>,
       Implement \<lparr>c_fileDefinitions = [\<lparr>path = ''BP/b.json'', content = ''2''\<rparr>],
                  c_scriptCallbacks = []\<rparr>] init))
   = [\<lparr>path = ''BP/b.json'', content = ''2''\<rparr>, \<lparr>path = ''BP/a.json'', content = ''1''\<rparr>] \<and>
   c_fileDefinitions (fst (factory plain_node
      [Implement \<lparr>c_fileDefinitions = [\<lparr>path = ''BP/a.json'', content = ''1''\<rparr>],
                  c_scriptCallbacks = [] :: nat list\<rparr>,
       Implement \<lparr>c_fileDefinitions = [\<lparr>path = ''BP/b.json'', content = ''2''\<rparr>],
                  c_scriptCallbacks = []\<rparr>] init))
   \<noteq> [\<lparr>path = ''BP/a.json'', content = ''1''\<rparr>, \<lparr>path = ''BP/b.json'', content = ''2''\<rparr>]"
  by (simp add: factory_def)

text \<open>
  Claim C1, amended. For every factory invocation whose callback implements
  \<open>B1, ..., Bn\<close> in that order and makes registrations of its own, the sequence of the
  resulting component (files at build time, script callbacks at run time) is the entries
  of \<open>Bn\<close>, then those of \<open>Bn-1\<close>, ..., then those of \<open>B1\<close>, then the registrations of the
  component itself; the entries of each \<open>Bi\<close> keep the order they have in \<open>Bi\<close>. The
  latest \<^verbatim>\<open>implement\<close> call is the closest to the front. The registrations of the component
  itself are what the same body registers without its \<^verbatim>\<open>implement\<close> calls. At build time
  the component has no script callbacks, at run time no files.
\<close>

theorem implement_order:
  "c_fileDefinitions (fst (factory N body s)) =
     concat (map c_fileDefinitions (rev (implemented body)))
       @ c_fileDefinitions (fst (factory N (own body) s)) \<and>
   c_scriptCallbacks (fst (factory N body s)) = [] \<and>
   (\<exists>c c0. rt_component body t = Some c \<and> rt_component (own body) t = Some c0 \<and>
      c_fileDefinitions c = [] \<and>
      c_scriptCallbacks c =
        concat (map c_scriptCallbacks (rev (implemented body))) @ c_scriptCallbacks c0)"
proof -
  have "c_scriptCallbacks (fst (factory N body s)) = []"
    by (simp add: factory_def split: prod.splits)
  with factory_order [of N body s] rt_factory_order [of body t] show ?thesis
    by blast
qed

theorem implement_order_witness:
  "c_fileDefinitions (fst (factory plain_node
      [RawText ''own1'' \<lparr>raw_name = None, raw_rootDir = ''BP'', raw_ext = ''txt'', raw_once = None\<rparr>,
       Implement \<lparr>c_fileDefinitions = [\<lparr>path = ''BP/a.json'', content = ''1''\<rparr>],
                  c_scriptCallbacks = [] :: nat list\<rparr>,
       Implement \<lparr>c_fileDefinitions = [\<lparr>path = ''BP/b.json'', content = ''2''\<rparr>],
                  c_scriptCallbacks = []\<rparr>] init))
   = [\<lparr>path = ''BP/b.json'', content = ''2''\<rparr>, \<lparr>path = ''BP/a.json'', content = ''1''\<rparr>,
      \<lparr>path = ''BP/0.txt'', content = ''own1''\<rparr>]"
  using implement_order [of plain_node
      "[RawText ''own1'' \<lparr>raw_name = None, raw_rootDir = ''BP'', raw_ext = ''txt'', raw_once = None\<rparr>,
       Implement \<lparr>c_fileDefinitions = [\<lparr>path = ''BP/a.json'', content = ''1''\<rparr>],
                  c_scriptCallbacks = [] :: nat list\<rparr>,
       Implement \<lparr>c_fileDefinitions = [\<lparr>path = ''BP/b.json'', content = ''2''\<rparr>],
                  c_scriptCallbacks = []\<rparr>]" init "rt_init :: (nat, unit) rt_session"]
  by (simp add: factory_def defineFile_def truthy_def Let_def plain_node_def init_def toString_0)

section \<open>File registrations at run time\<close>

lemma rt_factory_no_files:
  "rt_factory body s = (Inr (c, rs), h, s') \<Longrightarrow> c_fileDefinitions c = []"
  by (auto simp: rt_factory_def split: prod.splits sum.splits)

lemma emptyDefine_early_false: "emptyDefine_early opts (h, s) = (Inr RFalse, h, s)"
  by (simp add: emptyDefine_early_def)

text \<open>
  Claim C5, as stated, fails on the emitted bootstrap: a file registration with no
  options on a live handle returns the name \<^verbatim>\<open>"0"\<close>, not \<^verbatim>\<open>false\<close>, and moves the counter.
\<close>

theorem emptyDefine_returns_name:
  "emptyDefine no_options
     (\<lparr>scriptCallbacks = [] :: nat list, functionsAvailable = True\<rparr>,
      rt_init :: (nat, unit) rt_session)
   = (Inr (RName ''0''), \<lparr>scriptCallbacks = [], functionsAvailable = True\<rparr>,
      rt_init\<lparr>rt_allFilesCount := 1\<rparr>) \<and>
   fst (emptyDefine no_options
     (\<lparr>scriptCallbacks = [] :: nat list, functionsAvailable = True\<rparr>,
      rt_init :: (nat, unit) rt_session)) \<noteq> Inr RFalse"
  by (simp add: emptyDefine_def no_options_def rt_init_def truthy_def Let_def toString_0)

text \<open>
  Claim C5, amended. In the emitted bootstrap a file registration function, of any
  kind, never creates an artifact: it leaves the handle, the log of invoked callbacks
  and the \<^verbatim>\<open>createAddonCalled\<close> flag as they were, and every component a run-time factory
  returns has an empty file sequence. It is not a function that returns \<^verbatim>\<open>false\<close> for
  every input. On a live handle it returns \<^verbatim>\<open>false\<close>, changing nothing, exactly when its
  options carry a non-empty once-key that is already in the run-time key set; otherwise
  it returns the name (the given one, else the run-time counter as text), adds a
  non-empty key to the run-time key set and increments the run-time counter by one.
  On a handle whose factory has returned it raises the error "Cannot use 'define' as
  it is no longer available" and changes nothing. Nothing is said here about build
  time, where the kinds that go through \<^verbatim>\<open>defineJsonFile\<close> are not gated.
\<close>

theorem emptyDefine_gate_and_name:
  assumes "is_file_call c" and "rt_call c (h, s) = (r, h', s')"
  shows "h' = h \<and> invoked s' = invoked s \<and> createAddonCalled s' = createAddonCalled s \<and>
         (\<not> functionsAvailable h \<longrightarrow> r = Inl DefineUnavailable \<and> s' = s) \<and>
         (functionsAvailable h \<longrightarrow>
            (r = Inr RFalse \<longleftrightarrow> truthy (call_once c) \<and> the (call_once c) \<in> rt_fileOnceKeys s) \<and>
            (r = Inr RFalse \<longrightarrow> s' = s) \<and>
            (r \<noteq> Inr RFalse \<longrightarrow>
               r = Inr (RName (case call_name c of Some n \<Rightarrow> n
                               | None \<Rightarrow> toString (rt_allFilesCount s))) \<and>
               rt_allFilesCount s' = rt_allFilesCount s + 1 \<and>
               rt_fileOnceKeys s' =
                 (if truthy (call_once c) then insert (the (call_once c)) (rt_fileOnceKeys s)
                  else rt_fileOnceKeys s))) \<and>
         (\<exists>x. rt_component body t = Some x \<and> c_fileDefinitions x = [])"
proof -
  have files: "\<exists>x. rt_component body t = Some x \<and> c_fileDefinitions x = []"
    using rt_factory_order [of body t] by auto
  have main: "h' = h \<and> invoked s' = invoked s \<and> createAddonCalled s' = createAddonCalled s \<and>
         (\<not> functionsAvailable h \<longrightarrow> r = Inl DefineUnavailable \<and> s' = s) \<and>
         (functionsAvailable h \<longrightarrow>
            (r = Inr RFalse \<longleftrightarrow> truthy (call_once c) \<and> the (call_once c) \<in> rt_fileOnceKeys s) \<and>
            (r = Inr RFalse \<longrightarrow> s' = s) \<and>
            (r \<noteq> Inr RFalse \<longrightarrow>
               r = Inr (RName (case call_name c of Some n \<Rightarrow> n
                               | None \<Rightarrow> toString (rt_allFilesCount s))) \<and>
               rt_allFilesCount s' = rt_allFilesCount s + 1 \<and>
               rt_fileOnceKeys s' =
                 (if truthy (call_once c) then insert (the (call_once c)) (rt_fileOnceKeys s)
                  else rt_fileOnceKeys s)))"
    using assms
    by (cases c)
      (auto simp: emptyDefine_def raw_as_options_def Let_def split: if_splits option.splits)
  from main files show ?thesis by blast
qed

theorem emptyDefine_gate_and_name_witness:
  "is_file_call (Define Entity ''{}'' (no_options\<lparr>once := Some ''k''\<rparr>) :: (string, nat) call) \<and>
   rt_call (Define Entity ''{}'' (no_options\<lparr>once := Some ''k''\<rparr>))
     (\<lparr>scriptCallbacks = [7 :: nat], functionsAvailable = True\<rparr>,
      (rt_init :: (nat, unit) rt_session)\<lparr>rt_fileOnceKeys := {''k''}\<rparr>)
   = (Inr RFalse, \<lparr>scriptCallbacks = [7], functionsAvailable = True\<rparr>,
      rt_init\<lparr>rt_fileOnceKeys := {''k''}\<rparr>) \<and>
   functionsAvailable \<lparr>scriptCallbacks = [7 :: nat], functionsAvailable = True\<rparr> \<and>
   truthy (call_once (Define Entity ''{}'' (no_options\<lparr>once := Some ''k''\<rparr>) :: (string, nat) call))"
proof -
  let ?c = "Define Entity ''{}'' (no_options\<lparr>once := Some ''k''\<rparr>) :: (string, nat) call"
  have h1: "is_file_call ?c" by simp
  have h2: "rt_call ?c
     (\<lparr>scriptCallbacks = [7 :: nat], functionsAvailable = True\<rparr>,
      (rt_init :: (nat, unit) rt_session)\<lparr>rt_fileOnceKeys := {''k''}\<rparr>)
   = (Inr RFalse, \<lparr>scriptCallbacks = [7], functionsAvailable = True\<rparr>,
      rt_init\<lparr>rt_fileOnceKeys := {''k''}\<rparr>)"
    by (simp add: emptyDefine_def no_options_def rt_init_def truthy_def Let_def)
  from emptyDefine_gate_and_name
    [OF h1 h2, where body = "[] :: (string, nat) call list"
      and t = "rt_init :: (nat, unit) rt_session"]
  have "truthy (call_once ?c)"
    by simp
  with h1 h2 show ?thesis by simp
qed

section \<open>The handle after the factory has returned\<close>

text \<open>
  At run time the handle is inert once the factory has returned: every call on it
  raises the error of its function and changes nothing.
\<close>

lemma rt_handle_inert:
  assumes "rt_factory body s = (Inr r, h, s1)"
  shows "rt_call x (h, s2) = (Inl (unavailable x), h, s2)"
proof -
  from assms have "\<not> functionsAvailable h"
    by (auto simp: rt_factory_def split: prod.splits sum.splits)
  then show ?thesis
    by (cases x) (simp_all add: emptyDefine_def rt_script_def rt_implement_def)
qed

text \<open>
  Claim C2 at build time. The build-time factory has no \<^verbatim>\<open>functionsAvailable\<close>: after
  the invocation below has returned its component, with the array \<^verbatim>\<open>fileDefinitions\<close>
  empty, a call of \<^verbatim>\<open>define.rawText\<close> on the same handle returns the name \<^verbatim>\<open>"0"\<close> and
  pushes a file onto that array, which is the array the returned component holds; a
  call of \<^verbatim>\<open>implement\<close> returns as well. Neither raises an error.
\<close>

theorem build_handle_stays_live:
  "factory plain_node [] (init :: nat session)
     = (\<lparr>c_fileDefinitions = [], c_scriptCallbacks = []\<rparr>, [], [], init) \<and>
   bt_call plain_node
     (RawText ''x'' \<lparr>raw_name = None, raw_rootDir = ''BP'', raw_ext = ''txt'', raw_once = None\<rparr>)
     ([], init :: nat session)
     = (RName ''0'', [\<lparr>path = ''BP/0.txt'', content = ''x''\<rparr>], init\<lparr>allFilesCount := 1\<rparr>) \<and>
   bt_call plain_node
     (Implement \<lparr>c_fileDefinitions = [\<lparr>path = ''BP/a.json'', content = ''1''\<rparr>],
                 c_scriptCallbacks = [] :: nat list\<rparr> :: (string, nat) call)
     ([], init :: nat session)
     = (RVoid, [\<lparr>path = ''BP/a.json'', content = ''1''\<rparr>], init)"
  by (simp add: factory_def defineFile_def truthy_def Let_def plain_node_def init_def toString_0)

section \<open>The once-key gate\<close>

text \<open>
  Where the gate is applied it works as described: \<^verbatim>\<open>defineFile\<close> (so \<^verbatim>\<open>define.rawText\<close>)
  at build time, and every registration function at run time, for a non-empty key.
\<close>

lemma defineFile_once_gate:
  assumes "truthy (raw_once opts)"
  shows "(the (raw_once opts) \<in> fileOnceKeys s \<longrightarrow>
            defineFile N t opts (fds, s) = (RFalse, fds, s)) \<and>
         (the (raw_once opts) \<notin> fileOnceKeys s \<longrightarrow>
            (\<exists>n fd s'. defineFile N t opts (fds, s) = (RName n, fds @ [fd], s') \<and>
                fileOnceKeys s' = insert (the (raw_once opts)) (fileOnceKeys s)))"
  using assms by (simp add: defineFile_def Let_def)

lemma rt_once_gate:
  assumes "truthy k" and "functionsAvailable h"
  shows "(the k \<in> rt_fileOnceKeys s \<longrightarrow>
            emptyDefine (opts\<lparr>once := k\<rparr>) (h, s) = (Inr RFalse, h, s) \<and>
            rt_script cb k (h, s) = (Inr RVoid, h, s)) \<and>
         (the k \<notin> rt_fileOnceKeys s \<longrightarrow>
            (\<exists>n s'. emptyDefine (opts\<lparr>once := k\<rparr>) (h, s) = (Inr (RName n), h, s') \<and>
                rt_fileOnceKeys s' = insert (the k) (rt_fileOnceKeys s)) \<and>
            (\<exists>s'. rt_script cb k (h, s)
                     = (Inr RVoid, h\<lparr>scriptCallbacks := scriptCallbacks h @ [cb]\<rparr>, s') \<and>
                rt_fileOnceKeys s' = insert (the k) (rt_fileOnceKeys s)))"
  using assms by (simp add: emptyDefine_def rt_script_def Let_def)

text \<open>
  Claim C3 at build time, for a kind that goes through \<^verbatim>\<open>defineJsonFile\<close>: two
  registrations of an entity with the same once-key \<^verbatim>\<open>"k"\<close> both succeed, with the names
  \<^verbatim>\<open>"0"\<close> and \<^verbatim>\<open>"1"\<close>, and both files are in the sequence; the key is never recorded.
\<close>

theorem json_kinds_drop_once_key:
  "bt_calls plain_node
     [Define Entity ''{}'' (no_options\<lparr>once := Some ''k''\<rparr>),
      Define Entity ''{}'' (no_options\<lparr>once := Some ''k''\<rparr>)] ([], init :: nat session)
   = ([RName ''0'', RName ''1''],
      [\<lparr>path = ''BP/entities/0.json'', content = ''{}''\<rparr>,
       \<lparr>path = ''BP/entities/1.json'', content = ''{}''\<rparr>],
      init\<lparr>allFilesCount := 2\<rparr>)"
  by (simp add: defineJsonFile_def defineFile_def truthy_def Let_def plain_node_def init_def
      no_options_def toString_0 toString_Suc_0)

section \<open>The banner, entry by entry\<close>




section \<open>Finalizing at run time\<close>

text \<open>
  What the guard of the run-time \<^verbatim>\<open>createAddon\<close> does achieve: a call made when the flag
  is set fails with "'createAddon' has already been called"; a call that returns
  normally has set the flag; and with callbacks that only return, the call runs every
  callback of the component once, in order, each with the same \<^verbatim>\<open>MODULES\<close>.
\<close>

lemma rt_createAddon_guard:
  "createAddonCalled s
     \<Longrightarrow> rt_createAddon (Suc depth) M does c s = Some (Inl AddonAlreadyCalled, s)"
  by simp

lemma rt_createAddon_sets_flag:
  "rt_createAddon depth M does c s = Some (Inr u, s1) \<Longrightarrow> createAddonCalled s1"
  by (cases depth) (auto split: if_splits option.splits prod.splits sum.splits)

lemma invoke_all_plain:
  "\<forall>cb \<in> set cbs. does cb = Returns \<Longrightarrow>
     invoke_all depth M does cbs s
       = Some (Inr (), s\<lparr>invoked := invoked s @ map (\<lambda>cb. (cb, M)) cbs\<rparr>)"
  by (induction cbs arbitrary: s) (simp_all add: Let_def)

lemma rt_createAddon_plain:
  assumes "\<forall>cb \<in> set (c_scriptCallbacks c). does cb = Returns" and "\<not> createAddonCalled s"
  shows "rt_createAddon (Suc depth) M does c s =
           Some (Inr (), s\<lparr>invoked := invoked s @ map (\<lambda>cb. (cb, M)) (c_scriptCallbacks c),
                            createAddonCalled := True\<rparr>)"
  using assms by (simp add: invoke_all_plain)

text \<open>
  Claim C4 on a nested call. The flag \<^verbatim>\<open>createAddonCalled\<close> is set after the loop, so
  it is still false while the callbacks run. The root component below has the one
  callback 1, which calls \<^verbatim>\<open>createAddon\<close> on a component with the callback 2. The outer
  call returns normally, and so does the inner call, made in the state in which
  callback 1 has been logged: two calls of \<^verbatim>\<open>createAddon\<close> succeed in one session.
\<close>

theorem createAddon_nested_call_succeeds:
  "rt_createAddon 2 () reenter_example \<lparr>c_fileDefinitions = [], c_scriptCallbacks = [1]\<rparr>
       rt_init
     = Some (Inr (), rt_init\<lparr>invoked := [(1, ()), (2, ())], createAddonCalled := True\<rparr>) \<and>
   rt_createAddon 1 () reenter_example \<lparr>c_fileDefinitions = [], c_scriptCallbacks = [2]\<rparr>
       (rt_init\<lparr>invoked := [(1, ())]\<rparr>)
     = Some (Inr (), rt_init\<lparr>invoked := [(1, ()), (2, ())], createAddonCalled := True\<rparr>)"
  by (simp add: numeral_2_eq_2 reenter_example_def rt_init_def Let_def)

section \<open>Collecting the files of the root component\<close>

lemma bt_run_errors:
  "bt_run N ops st = Inl e \<Longrightarrow> e = AddonAlreadyCalled \<or> e = DefineAfterAddon"
proof (induction N ops st rule: bt_run.induct)
  case (1 N st)
  then show ?case by simp
next
  case (2 N ops s lg)
  then show ?case by (auto simp: defineComponent_def split: if_splits)
next
  case (3 N body ops s lg)
  then show ?case by (auto split: prod.splits)
next
  case (4 N c ops s lg)
  then show ?case by (auto simp: createAddon_def split: if_splits)
qed

lemma bt_run_set:
  "bt_run N ops (s, lg) = Inr (s', lg') \<Longrightarrow> mainComponent s \<noteq> None \<Longrightarrow> CreateAddon c \<notin> set ops"
proof (induction ops arbitrary: s lg)
  case Nil
  then show ?case by simp
next
  case (Cons x ops)
  show ?case
  proof (cases x)
    case DefineComponent
    with Cons.prems show ?thesis by (simp add: defineComponent_def)
  next
    case (CallFactory body)
    obtain c' rs fds s1 where f: "factory N body s = (c', rs, fds, s1)" by (metis prod_cases4)
    with Cons.prems CallFactory have r: "bt_run N ops (s1, lg @ zip body rs) = Inr (s', lg')" by simp
    from factory_mainComponent [OF f] Cons.prems(2) have "mainComponent s1 \<noteq> None" by simp
    from Cons.IH [OF r this] CallFactory show ?thesis by simp
  next
    case (CreateAddon c')
    with Cons.prems show ?thesis by (simp add: createAddon_def)
  qed
qed

lemma bt_run_unset:
  "bt_run N ops (s, lg) = Inr (s', lg') \<Longrightarrow> mainComponent s = None \<Longrightarrow>
     (case mainComponent s' of None \<Rightarrow> \<forall>c. CreateAddon c \<notin> set ops
      | Some c' \<Rightarrow> \<forall>c. CreateAddon c \<in> set ops \<longleftrightarrow> c = c')"
proof (induction ops arbitrary: s lg)
  case Nil
  then show ?case by simp
next
  case (Cons x ops)
  show ?case
  proof (cases x)
    case DefineComponent
    with Cons.prems have r: "bt_run N ops (s, lg) = Inr (s', lg')" by (simp add: defineComponent_def)
    from Cons.IH [OF r Cons.prems(2)] DefineComponent show ?thesis by (simp split: option.splits)
  next
    case (CallFactory body)
    obtain c' rs fds s1 where f: "factory N body s = (c', rs, fds, s1)" by (metis prod_cases4)
    with Cons.prems CallFactory have r: "bt_run N ops (s1, lg @ zip body rs) = Inr (s', lg')" by simp
    from factory_mainComponent [OF f] Cons.prems(2) have "mainComponent s1 = None" by simp
    from Cons.IH [OF r this] CallFactory show ?thesis by (simp split: option.splits)
  next
    case (CreateAddon c')
    let ?s1 = "s\<lparr>mainComponent := Some c'\<rparr>"
    from Cons.prems CreateAddon have r: "bt_run N ops (?s1, lg) = Inr (s', lg')" by (simp add: createAddon_def)
    from bt_run_mainComponent [OF r] have m: "mainComponent s' = Some c'" by simp
    from bt_run_set [OF r] have "\<And>c. CreateAddon c \<notin> set ops" by simp
    with m CreateAddon show ?thesis by auto
  qed
qed

text \<open>
  Claim C7. \<^verbatim>\<open>executeAndGetFileDefs\<close> fails with the error "'createAddon' must be
  called" if and only if the evaluation of the code completed and the code never
  called \<^verbatim>\<open>createAddon\<close>. When the evaluation completed and the code called
  \<^verbatim>\<open>createAddon\<close> on a component, the result is exactly the file sequence of that
  component; its script callbacks are not part of the result.
\<close>

theorem executeAndGetFileDefs_result:
  "(executeAndGetFileDefs N code = Inl AddonMustBeCalled \<longleftrightarrow>
      (\<exists>st. bt_run N code (init, []) = Inr st) \<and> (\<forall>c. CreateAddon c \<notin> set code)) \<and>
   (\<forall>st c. bt_run N code (init, []) = Inr st \<and> CreateAddon c \<in> set code \<longrightarrow>
      executeAndGetFileDefs N code = Inr (c_fileDefinitions c))"
proof (cases "bt_run N code (init, [])")
  case (Inl e)
  with bt_run_errors [OF Inl] show ?thesis by (auto simp: executeAndGetFileDefs_def)
next
  case (Inr st)
  obtain s lg where st: "st = (s, lg)" by (cases st)
  from bt_run_unset [OF Inr [unfolded st]] have u:
    "case mainComponent s of None \<Rightarrow> \<forall>c. CreateAddon c \<notin> set code
      | Some c' \<Rightarrow> \<forall>c. CreateAddon c \<in> set code \<longleftrightarrow> c = c'"
    by (simp add: init_def)
  show ?thesis
  proof (cases "mainComponent s")
    case None
    with u Inr st show ?thesis by (simp add: executeAndGetFileDefs_def)
  next
    case (Some c')
    with u Inr st show ?thesis by (auto simp: executeAndGetFileDefs_def)
  qed
qed

theorem executeAndGetFileDefs_result_witness:
  "bt_run plain_node
     [DefineComponent,
      CreateAddon \<lparr>c_fileDefinitions = [\<lparr>path = ''BP/a.json'', content = ''1''\<rparr>],
                   c_scriptCallbacks = [7 :: nat]\<rparr>] (init, [])
     = Inr (init\<lparr>mainComponent :=
                   Some \<lparr>c_fileDefinitions = [\<lparr>path = ''BP/a.json'', content = ''1''\<rparr>],
                         c_scriptCallbacks = [7]\<rparr>\<rparr>, []) \<and>
   executeAndGetFileDefs plain_node
     [DefineComponent,
      CreateAddon \<lparr>c_fileDefinitions = [\<lparr>path = ''BP/a.json'', content = ''1''\<rparr>],
                   c_scriptCallbacks = [7 :: nat]\<rparr>]
     = Inr [\<lparr>path = ''BP/a.json'', content = ''1''\<rparr>] \<and>
   executeAndGetFileDefs plain_node [DefineComponent :: (string, nat) op]
     = Inl AddonMustBeCalled"
proof -
  let ?c = "\<lparr>c_fileDefinitions = [\<lparr>path = ''BP/a.json'', content = ''1''\<rparr>],
             c_scriptCallbacks = [7 :: nat]\<rparr>"
  have h: "bt_run plain_node [DefineComponent, CreateAddon ?c] (init, [])
             = Inr (init\<lparr>mainComponent := Some ?c\<rparr>, [])"
    by (simp add: defineComponent_def createAddon_def init_def)
  have m: "CreateAddon ?c \<in> set [DefineComponent, CreateAddon ?c :: (string, nat) op]"
    by simp
  have e: "executeAndGetFileDefs plain_node [DefineComponent :: (string, nat) op]
             = Inl AddonMustBeCalled"
    by (simp add: executeAndGetFileDefs_def defineComponent_def init_def)
  from executeAndGetFileDefs_result [of plain_node "[DefineComponent, CreateAddon ?c]"] h m
  have "executeAndGetFileDefs plain_node [DefineComponent, CreateAddon ?c]
          = Inr (c_fileDefinitions ?c)"
    by blast
  with h e show ?thesis by simp
qed

section \<open>Generated names\<close>

lemma of_char_digit: "d < 10 \<Longrightarrow> of_char (digit d) = 48 + d"
  by (simp add: digit_def)

lemma Number_snoc: "Number (s @ [c]) = 10 * Number s + (of_char c - 48)"
  by (simp add: Number_def)

lemma Number_toString: "Number (toString n) = n"
proof (induction n rule: toString.induct)
  case (1 n)
  show ?case
  proof (cases "n < 10")
    case True
    then show ?thesis by (simp add: toString.simps [of n] Number_def of_char_digit)
  next
    case False
    with 1 have "Number (toString (n div 10)) = n div 10" by simp
    with False show ?thesis
      by (simp add: toString.simps [of n] Number_snoc of_char_digit)
  qed
qed

lemma registered_append: "registered k (a @ b) = registered (registered k a) b"
  by (induction a arbitrary: k) auto

lemma counts_from_append:
  "counts_from k (a @ b) \<longleftrightarrow> counts_from k a \<and> counts_from (registered k a) b"
  by (induction a arbitrary: k) (auto split: define_result.splits)

lemma bt_call_counts:
  "bt_call N c (fds, s) = (r, fds', s') \<Longrightarrow>
     counts_from (allFilesCount s) [(c, r)] \<and>
     allFilesCount s' = registered (allFilesCount s) [(c, r)]"
  by (cases c)
    (auto simp: defineFile_def defineJsonFile_def Let_def split: if_splits option.splits)

lemma bt_calls_counts:
  "bt_calls N cs (fds, s) = (rs, fds', s') \<Longrightarrow>
     length rs = length cs \<and>
     counts_from (allFilesCount s) (zip cs rs) \<and>
     allFilesCount s' = registered (allFilesCount s) (zip cs rs)"
proof (induction cs arbitrary: fds s rs fds' s')
  case Nil
  then show ?case by simp
next
  case (Cons c cs)
  obtain r f1 s1 where c: "bt_call N c (fds, s) = (r, f1, s1)"
    by (metis prod_cases3)
  obtain rs2 f2 s2 where cs: "bt_calls N cs (f1, s1) = (rs2, f2, s2)"
    by (metis prod_cases3)
  from Cons.prems c cs have eq: "rs = r # rs2" "s' = s2" by simp_all
  from bt_call_counts [OF c] Cons.IH [OF cs]
  have "counts_from (allFilesCount s) ([(c, r)] @ zip cs rs2)"
       "allFilesCount s2 = registered (allFilesCount s) ([(c, r)] @ zip cs rs2)"
       "length rs2 = length cs"
    unfolding counts_from_append registered_append by simp_all
  with eq show ?case by simp
qed

lemma bt_run_counts:
  "bt_run N ops (s, lg) = Inr (s', lg') \<Longrightarrow>
   counts_from k lg \<Longrightarrow> allFilesCount s = registered k lg \<Longrightarrow>
     counts_from k lg' \<and> allFilesCount s' = registered k lg'"
proof (induction ops arbitrary: s lg)
  case Nil
  then show ?case by simp
next
  case (Cons x ops)
  show ?case
  proof (cases x)
    case DefineComponent
    with Cons.prems have r: "bt_run N ops (s, lg) = Inr (s', lg')"
      by (simp add: defineComponent_def split: if_splits)
    from Cons.IH [OF r Cons.prems(2,3)] show ?thesis .
  next
    case (CallFactory body)
    obtain rs fds s1 where b: "bt_calls N body ([], s) = (rs, fds, s1)"
      by (metis prod_cases3)
    with Cons.prems CallFactory
    have r: "bt_run N ops (s1, lg @ zip body rs) = Inr (s', lg')"
      by (simp add: factory_def)
    from bt_calls_counts [OF b] Cons.prems(2,3)
    have "counts_from k (lg @ zip body rs)" "allFilesCount s1 = registered k (lg @ zip body rs)"
      by (simp_all add: counts_from_append registered_append)
    from Cons.IH [OF r this] show ?thesis .
  next
    case (CreateAddon c)
    with Cons.prems have r: "bt_run N ops (s\<lparr>mainComponent := Some c\<rparr>, lg) = Inr (s', lg')"
      by (simp add: createAddon_def split: if_splits)
    from Cons.IH [OF r Cons.prems(2)] Cons.prems(3) show ?thesis by simp
  qed
qed

lemma counts_from_auto:
  "counts_from k lg \<Longrightarrow>
     \<exists>ks. auto_names lg = map toString ks \<and> sorted_wrt (<) ks \<and> (\<forall>x \<in> set ks. k \<le> x)"
proof (induction lg arbitrary: k)
  case Nil
  then show ?case by simp
next
  case (Cons a lg)
  obtain c r where a: "a = (c, r)" by (cases a)
  show ?case
  proof (cases "is_file_call c \<and> r \<noteq> RFalse")
    case False
    with Cons.prems a have "counts_from k lg" "auto_names (a # lg) = auto_names lg"
      by (auto split: define_result.splits if_splits)
    with Cons.IH [of k] show ?thesis by simp
  next
    case True
    with Cons.prems a obtain n where
      n: "r = RName n" "n = (case call_name c of Some m \<Rightarrow> m | None \<Rightarrow> toString k)"
         "counts_from (k + 1) lg"
      by (auto split: define_result.splits)
    from Cons.IH [OF n(3)] obtain ks where
      ks: "auto_names lg = map toString ks" "sorted_wrt (<) ks" "\<forall>x \<in> set ks. k + 1 \<le> x"
      by blast
    show ?thesis
    proof (cases "call_name c")
      case None
      with True n a ks(1) have "auto_names (a # lg) = map toString (k # ks)" by simp
      moreover from ks(2,3) have "sorted_wrt (<) (k # ks)" "\<forall>x \<in> set (k # ks). k \<le> x" by auto
      ultimately show ?thesis by blast
    next
      case (Some m)
      with True n a have "auto_names (a # lg) = auto_names lg" by simp
      with ks show ?thesis by (intro exI [of _ ks]) auto
    qed
  qed
qed

text \<open>
  Claim C8. In one build-time evaluation, from the counter value 0, the file
  registrations of all components and all kinds share one counter: every registration
  that succeeds has the name its options give, or else the text of the number of
  registrations that succeeded before it, and the counter ends at the number of
  registrations that succeeded. So the generated names, read as numbers, are strictly
  increasing in registration order, and pairwise distinct. An evaluation that ends in
  an error has run a prefix of its calls to the end, so the statement covers what it
  registered before the error.
\<close>

theorem generated_names_increase:
  assumes "bt_run N ops (init, []) = Inr (s, lg)"
  shows "counts_from 0 lg \<and> allFilesCount s = registered 0 lg \<and>
         sorted_wrt (<) (map Number (auto_names lg)) \<and> distinct (auto_names lg)"
proof -
  from bt_run_counts [OF assms, of 0]
  have c: "counts_from 0 lg" "allFilesCount s = registered 0 lg"
    by (simp_all add: init_def)
  from counts_from_auto [OF c(1)] obtain ks where
    ks: "auto_names lg = map toString ks" "sorted_wrt (<) ks"
    by blast
  have m: "map Number (auto_names lg) = ks"
    by (simp add: ks(1) Number_toString cong: map_cong)
  with ks(2) have s: "sorted_wrt (<) (map Number (auto_names lg))" by simp
  then have "distinct (map Number (auto_names lg))"
    by (simp add: strict_sorted_iff)
  then have "distinct (auto_names lg)" by (simp add: distinct_map)
  with c s show ?thesis by simp
qed


theorem generated_names_increase_witness:
  "bt_run plain_node
     [DefineComponent,
      CallFactory [Define Entity ''{}'' no_options, Script (3 :: nat) None,
        RawText ''t'' \<lparr>raw_name = Some ''named'', raw_rootDir = ''BP'', raw_ext = ''txt'',
                       raw_once = None\<rparr>],
      CallFactory [Define Item ''{}'' no_options]] (init, [])
     = Inr (init\<lparr>allFilesCount := 3\<rparr>,
        [(Define Entity ''{}'' no_options, RName ''0''),
         (Script 3 None, RVoid),
         (RawText ''t'' \<lparr>raw_name = Some ''named'', raw_rootDir = ''BP'', raw_ext = ''txt'',
                        raw_once = None\<rparr>, RName ''named''),
         (Define Item ''{}'' no_options, RName ''2'')]) \<and>
   auto_names
        [(Define Entity ''{}'' no_options, RName ''0''),
         (Script (3 :: nat) None, RVoid),
         (RawText ''t'' \<lparr>raw_name = Some ''named'', raw_rootDir = ''BP'', raw_ext = ''txt'',
                        raw_once = None\<rparr>, RName ''named''),
         (Define Item ''{}'' no_options, RName ''2'')] = [''0'', ''2''] \<and>
   sorted_wrt (<) (map Number [''0'', ''2''])"
proof -
  let ?lg = "[(Define Entity ''{}'' no_options, RName ''0''),
         (Script (3 :: nat) None, RVoid),
         (RawText ''t'' \<lparr>raw_name = Some ''named'', raw_rootDir = ''BP'', raw_ext = ''txt'',
                        raw_once = None\<rparr>, RName ''named''),
         (Define Item ''{}'' no_options, RName ''2'')]"
  have h: "bt_run plain_node
     [DefineComponent,
      CallFactory [Define Entity ''{}'' no_options, Script (3 :: nat) None,
        RawText ''t'' \<lparr>raw_name = Some ''named'', raw_rootDir = ''BP'', raw_ext = ''txt'',
                       raw_once = None\<rparr>],
      CallFactory [Define Item ''{}'' no_options]] (init, [])
     = Inr (init\<lparr>allFilesCount := 3\<rparr>, ?lg)"
    by (simp add: defineComponent_def factory_def defineJsonFile_def defineFile_def
        truthy_def Let_def init_def no_options_def toString_0 toString_2)
  have a: "auto_names ?lg = [''0'', ''2'']"
    by (simp add: no_options_def)
  from generated_names_increase [OF h]
  have "sorted_wrt (<) (map Number (auto_names ?lg))"
    by (elim conjE)
  with h a show ?thesis by simp
qed

end
